theory Spec2Isabelle
  imports Complex_Main
begin

section \<open>Python values\<close>

text \<open>
  The exceptions of the program all derive from Python's \<open>Exception\<close>: \<open>IndexError\<close> is
  what \<open>df.iloc\<close> raises for a position outside the frame, \<open>ValueError\<close> is what
  \<open>ws.cell\<close> raises for a row or column below 1, and \<open>Error msg\<close> stands for any other
  exception of class \<open>Exception\<close> that opening, reading or saving a workbook raises.
\<close>

datatype exn = IndexError | ValueError | Error string

text \<open>
  A cell of a frame read with \<open>pd.read_excel(..., header=None)\<close>: an empty cell is
  \<open>NaN\<close>, a missing timestamp is \<open>NaT\<close>, text is a Python \<open>str\<close>. Text is a list of
  characters with code points below 256; in that range the only decimal digits are
  \<open>0\<close> to \<open>9\<close>.
\<close>

datatype cell =
    NaN
  | NaT
  | Text string
  | Integer int
  | Number real
  | Boolean bool
  | DateTime int

section \<open>The regular expression of \<open>extract_date\<close>\<close>

text \<open>
  The pattern \<open>\d{2}/\d{2}/\d{4}\<close> is a sequence of ten atoms, each matching exactly
  one character.
\<close>

datatype atom = Digit | Lit char

fun atom_matches :: "atom \<Rightarrow> char \<Rightarrow> bool" where
  "atom_matches Digit c = (c \<in> set ''0123456789'')"
| "atom_matches (Lit a) c = (c = a)"

definition date_regex :: "atom list" where
  "date_regex =
     [Digit, Digit, Lit CHR ''/'', Digit, Digit, Lit CHR ''/'', Digit, Digit, Digit, Digit]"

text \<open>
  \<open>match_here p s\<close> matches the pattern at the start of \<open>s\<close> and yields the matched text.
\<close>

fun match_here :: "atom list \<Rightarrow> string \<Rightarrow> string option" where
  "match_here [] s = Some []"
| "match_here (a # p) [] = None"
| "match_here (a # p) (c # s) =
     (if atom_matches a c then map_option ((#) c) (match_here p s) else None)"

text \<open>
  \<open>re.search\<close> tries the start positions from left to right and stops at the first one
  where the pattern matches; the result is \<open>match.group()\<close>.
\<close>

fun re_search :: "atom list \<Rightarrow> string \<Rightarrow> string option" where
  "re_search p [] = match_here p []"
| "re_search p (c # s) =
     (case match_here p (c # s) of
        Some m \<Rightarrow> Some m
      | None \<Rightarrow> re_search p s)"

definition extract_date :: "cell \<Rightarrow> cell" where
  "extract_date date_string =
     (case date_string of
        Text s \<Rightarrow>
          (case re_search date_regex s of
             Some m \<Rightarrow> Text m
           | None \<Rightarrow> date_string)
      | _ \<Rightarrow> date_string)"

text \<open>
  The words of the specification: a text \<open>m\<close> has the shape \<open>DD/MM/YYYY\<close>, and the
  substring of \<open>s\<close> that starts at position \<open>i\<close> has that shape.
\<close>

definition date_shaped :: "string \<Rightarrow> bool" where
  "date_shaped m = list_all2 atom_matches date_regex m"

definition substring :: "string \<Rightarrow> nat \<Rightarrow> string" where
  "substring s i = take 10 (drop i s)"

definition date_at :: "string \<Rightarrow> nat \<Rightarrow> bool" where
  "date_at s i = date_shaped (substring s i)"

section \<open>Frames\<close>

text \<open>
  A \<open>DataFrame\<close> read with \<open>header=None\<close> is a rectangular grid addressed by
  zero-based positions. \<open>df.iloc[i, j]\<close> raises \<open>IndexError\<close> outside the grid, and
  \<open>pd.notna\<close> is false exactly for the missing values.
\<close>

record dataframe =
  nrows :: nat
  ncols :: nat
  grid :: "nat \<Rightarrow> nat \<Rightarrow> cell"

definition iloc :: "dataframe \<Rightarrow> nat \<Rightarrow> nat \<Rightarrow> exn + cell" where
  "iloc df i j = (if i < nrows df \<and> j < ncols df then Inr (grid df i j) else Inl IndexError)"

definition notna :: "cell \<Rightarrow> bool" where
  "notna v = (case v of NaN \<Rightarrow> False | NaT \<Rightarrow> False | _ \<Rightarrow> True)"

definition bind :: "exn + 'a \<Rightarrow> ('a \<Rightarrow> exn + 'b) \<Rightarrow> exn + 'b" where
  "bind r f = (case r of Inl e \<Rightarrow> Inl e | Inr v \<Rightarrow> f v)"

section \<open>The output worksheet\<close>

text \<open>
  A worksheet holds the cells that exist, keyed by (row, column), both counted from 1.
  A cell carries its value (\<open>None\<close> when it has none), whether its font is bold, its
  horizontal alignment and the style of its bottom border.
\<close>

record xcell =
  cell_value :: "cell option"
  font_bold :: bool
  alignment_horizontal :: "string option"
  border_bottom :: "string option"

record worksheet =
  title :: string
  cells :: "int \<times> int \<Rightarrow> xcell option"
  merged_cells :: "((int \<times> int) \<times> (int \<times> int)) list"
  column_width :: "char \<Rightarrow> nat option"

datatype message =
    ProcessingFile string
  | RowNotFound string
  | ErrorProcessing string exn
  | Created string
  | FilesProcessed nat
  | TotalRows int
  | FatalError exn

text \<open>
  The effects of a run: the worksheet being built, the lines printed so far and the
  workbook written by \<open>wb.save\<close>, if any.
\<close>

record world =
  ws :: worksheet
  stdout :: "message list"
  saved :: "(string \<times> worksheet) option"

definition print :: "message \<Rightarrow> world \<Rightarrow> world" where
  "print m w = w\<lparr>stdout := stdout w @ [m]\<rparr>"

definition empty_cell :: xcell where
  "empty_cell =
     \<lparr>cell_value = None, font_bold = False, alignment_horizontal = None, border_bottom = None\<rparr>"

definition get_cell :: "worksheet \<Rightarrow> int \<times> int \<Rightarrow> xcell" where
  "get_cell sh p = (case cells sh p of None \<Rightarrow> empty_cell | Some c \<Rightarrow> c)"

text \<open>
  \<open>ws.cell(row, column, value)\<close>: both coordinates must be at least 1; the cell is
  created when it does not exist, and the value is assigned only when it is not \<open>None\<close>.
  The values of a frame are values that a worksheet cell accepts, so the assignment itself
  raises nothing.
\<close>

definition assign :: "cell option \<Rightarrow> xcell \<Rightarrow> xcell" where
  "assign v c = (case v of None \<Rightarrow> c | Some x \<Rightarrow> c\<lparr>cell_value := Some x\<rparr>)"

definition ws_cell :: "int \<Rightarrow> int \<Rightarrow> cell option \<Rightarrow> world \<Rightarrow> (exn + unit) \<times> world" where
  "ws_cell row column v w =
     (if row < 1 \<or> column < 1 then (Inl ValueError, w)
      else
        (Inr (),
         w\<lparr>ws := (ws w)\<lparr>cells :=
              (cells (ws w))((row, column) \<mapsto> assign v (get_cell (ws w) (row, column)))\<rparr>\<rparr>))"

text \<open>Assignment to an attribute of the cell that \<open>ws.cell\<close> has returned.\<close>

definition modify_cell :: "int \<times> int \<Rightarrow> (xcell \<Rightarrow> xcell) \<Rightarrow> world \<Rightarrow> world" where
  "modify_cell p f w = w\<lparr>ws := (ws w)\<lparr>cells := (cells (ws w))(p \<mapsto> f (get_cell (ws w) p))\<rparr>\<rparr>"

fun enumerate_from :: "int \<Rightarrow> 'a list \<Rightarrow> (int \<times> 'a) list" where
  "enumerate_from k [] = []"
| "enumerate_from k (x # xs) = (k, x) # enumerate_from (k + 1) xs"

section \<open>\<open>process_sheet\<close>\<close>

text \<open>\<open>df.iloc[i, j] if pd.notna(df.iloc[i, j]) else "N/A"\<close>\<close>

definition date_cell :: "dataframe \<Rightarrow> nat \<Rightarrow> nat \<Rightarrow> exn + cell" where
  "date_cell df i j =
     bind (iloc df i j) (\<lambda>v. if notna v then iloc df i j else Inr (Text ''N/A''))"

text \<open>The list literal \<open>row_data\<close>; its elements are evaluated from left to right.\<close>

definition row_data :: "dataframe \<Rightarrow> cell \<Rightarrow> cell \<Rightarrow> exn + cell option list" where
  "row_data df b5_date d5_date =
     bind (iloc df 14 1) (\<lambda>b.
     bind (iloc df 14 2) (\<lambda>c.
     bind (iloc df 14 3) (\<lambda>d.
     bind (iloc df 14 4) (\<lambda>e.
     bind (iloc df 14 5) (\<lambda>f.
     bind (iloc df 14 6) (\<lambda>g.
       Inr [None, Some b, Some c, Some d, Some e, Some f, Some g,
            Some b5_date, Some d5_date]))))))"

text \<open>\<open>for col_num, value in enumerate(row_data, 1): ws.cell(row, col_num, value)\<close>\<close>

fun write_cells :: "int \<Rightarrow> (int \<times> cell option) list \<Rightarrow> world \<Rightarrow> (exn + unit) \<times> world" where
  "write_cells current_row [] w = (Inr (), w)"
| "write_cells current_row ((col_num, v) # rest) w =
     (case ws_cell current_row col_num v w of
        (Inl e, w') \<Rightarrow> (Inl e, w')
      | (Inr _, w') \<Rightarrow> write_cells current_row rest w')"

text \<open>The body of the \<open>try\<close> statement.\<close>

definition try_row :: "dataframe \<Rightarrow> cell \<Rightarrow> cell \<Rightarrow> int \<Rightarrow> world \<Rightarrow> (exn + int) \<times> world" where
  "try_row df b5_date d5_date current_row w =
     (case row_data df b5_date d5_date of
        Inl e \<Rightarrow> (Inl e, w)
      | Inr row \<Rightarrow>
          (case write_cells current_row (enumerate_from 1 row) w of
             (Inl e, w') \<Rightarrow> (Inl e, w')
           | (Inr _, w') \<Rightarrow> (Inr (current_row + 1), w')))"

text \<open>
  The two date cells are read before the \<open>try\<close> statement, so an exception of theirs
  leaves \<open>process_sheet\<close>; the handler catches \<open>IndexError\<close> only.
\<close>

definition process_sheet :: "dataframe \<Rightarrow> int \<Rightarrow> string \<Rightarrow> world \<Rightarrow> (exn + int) \<times> world" where
  "process_sheet df current_row sheet_name w =
     (case date_cell df 4 1 of
        Inl e \<Rightarrow> (Inl e, w)
      | Inr b5 \<Rightarrow>
          (case date_cell df 4 3 of
             Inl e \<Rightarrow> (Inl e, w)
           | Inr d5 \<Rightarrow>
               (case try_row df (extract_date b5) (extract_date d5) current_row w of
                  (Inl IndexError, w') \<Rightarrow> (Inr current_row, print (RowNotFound sheet_name) w')
                | (r, w') \<Rightarrow> (r, w'))))"

section \<open>\<open>merge_excel_files\<close>\<close>

text \<open>
  A path as \<open>pathlib\<close> parses it: the anchor (root or drive, empty for a relative path)
  and the components; \<open>Path(p).name\<close> is the last component, or empty when there is none.
\<close>

datatype path = Path string "string list"

fun path_name :: "path \<Rightarrow> string" where
  "path_name (Path anchor parts) = (if parts = [] then [] else last parts)"

text \<open>
  What the run reads from its surroundings. \<open>pd.ExcelFile(input_file, engine='xlrd')\<close>
  raises or yields the workbook: its sheet names in their native order, each with what
  \<open>pd.read_excel(xls, sheet_name, header=None)\<close> does for it. \<open>wb.save(output_path)\<close>
  raises or writes the workbook.
\<close>

type_synonym xls = "(string \<times> (exn + dataframe)) list"

record env =
  excel_file :: "path \<Rightarrow> exn + xls"
  save_error :: "string \<Rightarrow> exn option"

definition new_workbook :: world where
  "new_workbook =
     \<lparr>ws = \<lparr>title = ''Sheet'', cells = Map.empty, merged_cells = [], column_width = Map.empty\<rparr>,
      stdout = [], saved = None\<rparr>"

definition set_title :: "string \<Rightarrow> world \<Rightarrow> world" where
  "set_title t w = w\<lparr>ws := (ws w)\<lparr>title := t\<rparr>\<rparr>"

text \<open>
  \<open>ws.merge_cells\<close> of a range, given by its top left and bottom right cells: the range is recorded and its
  cells exist afterwards.
\<close>

definition merge_cells :: "int \<times> int \<Rightarrow> int \<times> int \<Rightarrow> world \<Rightarrow> world" where
  "merge_cells top_left bottom_right w =
     fold (\<lambda>p. modify_cell p id)
       (concat (map (\<lambda>r. map (\<lambda>c. (r, c)) [snd top_left..snd bottom_right]) [fst top_left..fst bottom_right]))
       (w\<lparr>ws := (ws w)\<lparr>merged_cells := merged_cells (ws w) @ [(top_left, bottom_right)]\<rparr>\<rparr>)"

definition headers :: "string list" where
  "headers =
     [[], [], ''Moneda/Pa'' @ [CHR 0xED] @ ''s'', ''Compra (BID)'', ''Venta (ASK)'',
      ''Compra (BID)'', ''Venta (ASK)'', ''Fecha Operacion'', ''Fecha Valor'']"

fun write_headers :: "(int \<times> string) list \<Rightarrow> world \<Rightarrow> (exn + unit) \<times> world" where
  "write_headers [] w = (Inr (), w)"
| "write_headers ((col_num, header) # rest) w =
     (case ws_cell 2 col_num (Some (Text header)) w of
        (Inl e, w') \<Rightarrow> (Inl e, w')
      | (Inr _, w') \<Rightarrow>
          write_headers rest
            (if header \<noteq> []
             then modify_cell (2, col_num) (\<lambda>c. c\<lparr>alignment_horizontal := Some ''center''\<rparr>)
                    (modify_cell (2, col_num) (\<lambda>c. c\<lparr>font_bold := True\<rparr>) w')
             else w'))"

definition set_width :: "char \<times> nat \<Rightarrow> world \<Rightarrow> world" where
  "set_width cw w =
     w\<lparr>ws := (ws w)\<lparr>column_width := (column_width (ws w))(fst cw \<mapsto> snd cw)\<rparr>\<rparr>"

text \<open>Lines 56 to 84: the new workbook, the merged header labels, the column labels, the widths.\<close>

definition setup_header :: "world \<Rightarrow> (exn + unit) \<times> world" where
  "setup_header w0 =
     (let w1 = merge_cells (1, 6) (1, 7) (merge_cells (1, 4) (1, 5) (set_title ''Consolidado'' w0)) in
      case ws_cell 1 4 (Some (Text (''(a) Cotizaci'' @ [CHR 0xF3] @ ''n M.E./US$''))) w1 of
        (Inl e, w2) \<Rightarrow> (Inl e, w2)
      | (Inr _, w2) \<Rightarrow>
          (case ws_cell 1 6 (Some (Text ''Bs./M.E.'')) w2 of
             (Inl e, w3) \<Rightarrow> (Inl e, w3)
           | (Inr _, w3) \<Rightarrow>
               (case write_headers (enumerate_from 1 headers) w3 of
                  (Inl e, w4) \<Rightarrow> (Inl e, w4)
                | (Inr _, w4) \<Rightarrow>
                    (Inr (), fold set_width (zip ''ABCDEFGHI'' [5, 15, 15, 15, 15, 15, 15, 15, 15]) w4))))"

text \<open>
  The loop over the sheets of one workbook. The cursor is assigned only when
  \<open>process_sheet\<close> returns; an exception leaves the loop with the cursor it had.
\<close>

fun process_sheets :: "xls \<Rightarrow> int \<Rightarrow> world \<Rightarrow> (exn + unit) \<times> int \<times> world" where
  "process_sheets [] current_row w = (Inr (), current_row, w)"
| "process_sheets ((sheet_name, rd) # rest) current_row w =
     (case rd of
        Inl e \<Rightarrow> (Inl e, current_row, w)
      | Inr df \<Rightarrow>
          (case process_sheet df current_row sheet_name w of
             (Inl e, w') \<Rightarrow> (Inl e, current_row, w')
           | (Inr r, w') \<Rightarrow> process_sheets rest r w'))"

text \<open>\<open>for col in range(1, 10): ws.cell(row, col).border = dotted_border\<close>\<close>

fun apply_border :: "int \<Rightarrow> int list \<Rightarrow> world \<Rightarrow> (exn + unit) \<times> world" where
  "apply_border r [] w = (Inr (), w)"
| "apply_border r (col # cols) w =
     (case ws_cell r col None w of
        (Inl e, w') \<Rightarrow> (Inl e, w')
      | (Inr _, w') \<Rightarrow>
          apply_border r cols (modify_cell (r, col) (\<lambda>c. c\<lparr>border_bottom := Some ''dotted''\<rparr>) w'))"

text \<open>The body of the inner \<open>try\<close> statement, for the file at index \<open>file_idx\<close> of \<open>n\<close>.\<close>

definition try_file :: "env \<Rightarrow> nat \<Rightarrow> nat \<Rightarrow> path \<Rightarrow> int \<Rightarrow> world \<Rightarrow> (exn + unit) \<times> int \<times> world" where
  "try_file env n file_idx input_file current_row w =
     (case excel_file env input_file of
        Inl e \<Rightarrow> (Inl e, current_row, w)
      | Inr xls \<Rightarrow>
          (case process_sheets xls current_row w of
             (Inl e, cur, w') \<Rightarrow> (Inl e, cur, w')
           | (Inr _, cur, w') \<Rightarrow>
               if int file_idx < int n - 1
               then (case apply_border (cur - 1) [1..9] w' of (r, w'') \<Rightarrow> (r, cur, w''))
               else (Inr (), cur, w')))"

text \<open>
  The loop over the input files: the inner handler catches every exception, prints the
  file's name and goes on with the next file.
\<close>

fun process_files :: "env \<Rightarrow> nat \<Rightarrow> nat \<Rightarrow> path list \<Rightarrow> int \<Rightarrow> world \<Rightarrow> int \<times> world" where
  "process_files env n file_idx [] current_row w = (current_row, w)"
| "process_files env n file_idx (input_file # rest) current_row w =
     (case try_file env n file_idx input_file current_row
             (print (ProcessingFile (path_name input_file)) w) of
        (Inl e, cur, w') \<Rightarrow>
          process_files env n (file_idx + 1) rest cur
            (print (ErrorProcessing (path_name input_file) e) w')
      | (Inr _, cur, w') \<Rightarrow> process_files env n (file_idx + 1) rest cur w')"

definition save :: "env \<Rightarrow> string \<Rightarrow> world \<Rightarrow> (exn + unit) \<times> world" where
  "save env output_path w =
     (case save_error env output_path of
        Some e \<Rightarrow> (Inl e, w)
      | None \<Rightarrow> (Inr (), w\<lparr>saved := Some (output_path, ws w)\<rparr>))"

text \<open>The body of the outer \<open>try\<close> statement.\<close>

definition merge_body :: "env \<Rightarrow> path list \<Rightarrow> string \<Rightarrow> (exn + unit) \<times> world" where
  "merge_body env input_files output_path =
     (case setup_header new_workbook of
        (Inl e, w) \<Rightarrow> (Inl e, w)
      | (Inr _, w) \<Rightarrow>
          (case process_files env (length input_files) 0 input_files 3 w of
             (current_row, w') \<Rightarrow>
               (case save env output_path w' of
                  (Inl e, w'') \<Rightarrow> (Inl e, w'')
                | (Inr _, w'') \<Rightarrow>
                    (Inr (),
                     print (TotalRows (current_row - 3))
                       (print (FilesProcessed (length input_files))
                          (print (Created output_path) w''))))))"

text \<open>The outer handler catches every exception and prints it; nothing is raised again.\<close>

definition merge_excel_files :: "env \<Rightarrow> path list \<Rightarrow> string \<Rightarrow> (exn + unit) \<times> world" where
  "merge_excel_files env input_files output_path =
     (case merge_body env input_files output_path of
        (Inl e, w) \<Rightarrow> (Inr (), print (FatalError e) w)
      | (Inr u, w) \<Rightarrow> (Inr u, w))"

section \<open>Observations and invariants of the run\<close>

text \<open>
  The world after \<open>row\<close> has been written to the worksheet row \<open>r\<close>, its first element
  at column \<open>k\<close>: the effect of the loop over \<open>enumerate(row_data, 1)\<close>.
\<close>

definition store_row :: "int \<Rightarrow> int \<Rightarrow> cell option list \<Rightarrow> world \<Rightarrow> world" where
  "store_row r k row w =
     w\<lparr>ws := (ws w)\<lparr>cells := (\<lambda>p.
        if fst p = r \<and> k \<le> snd p \<and> snd p < k + int (length row)
        then Some (assign (row ! nat (snd p - k)) (get_cell (ws w) p))
        else cells (ws w) p)\<rparr>\<rparr>"

text \<open>
  The row that \<open>process_sheet\<close> assembles from a frame that holds all the cells it reads.
\<close>

definition date_or_na :: "cell \<Rightarrow> cell" where
  "date_or_na v = (if notna v then v else Text ''N/A'')"

definition projected :: "dataframe \<Rightarrow> cell option list" where
  "projected df =
     [None, Some (grid df 14 1), Some (grid df 14 2), Some (grid df 14 3),
      Some (grid df 14 4), Some (grid df 14 5), Some (grid df 14 6),
      Some (extract_date (date_or_na (grid df 4 1))),
      Some (extract_date (date_or_na (grid df 4 3)))]"

text \<open>The value and the bottom border at a position; a cell that does not exist has neither.\<close>

definition value_at :: "world \<Rightarrow> int \<times> int \<Rightarrow> cell option" where
  "value_at w p = cell_value (get_cell (ws w) p)"


text \<open>No cell exists in row \<open>r\<close> or in any row after it.\<close>

definition no_rows_from :: "int \<Rightarrow> world \<Rightarrow> bool" where
  "no_rows_from r w = (\<forall>r' c. r \<le> r' \<longrightarrow> cells (ws w) (r', c) = None)"

text \<open>
  Every cell in a row above \<open>cur\<close> is still there in \<open>w'\<close> and is as it was in \<open>w\<close>, but for
  a dotted bottom border that it may have received.
\<close>

definition kept_below :: "int \<Rightarrow> world \<Rightarrow> world \<Rightarrow> bool" where
  "kept_below cur w w' =
     (\<forall>r c. r < cur \<longrightarrow>
        (cells (ws w) (r, c) \<noteq> None \<longrightarrow> cells (ws w') (r, c) \<noteq> None) \<and>
        (get_cell (ws w') (r, c) = get_cell (ws w) (r, c) \<or>
         get_cell (ws w') (r, c) = (get_cell (ws w) (r, c))\<lparr>border_bottom := Some ''dotted''\<rparr>))"

text \<open>
  What every step of the run does to the cursor and the world: the cursor does not go back,
  the rows above it are kept, lines are only added to the output, nothing is saved, and
  the rows from the cursor on stay empty.
\<close>

definition advances :: "int \<Rightarrow> world \<Rightarrow> int \<Rightarrow> world \<Rightarrow> bool" where
  "advances cur w cur' w' =
     (cur \<le> cur' \<and> kept_below cur w w' \<and> (\<exists>ms. stdout w' = stdout w @ ms) \<and>
      saved w' = saved w \<and> (no_rows_from cur w \<longrightarrow> no_rows_from cur' w'))"

text \<open>The world after the cells of row \<open>r\<close> in the columns \<open>cols\<close> have got a dotted bottom border.\<close>

definition dotted_row :: "int \<Rightarrow> int list \<Rightarrow> world \<Rightarrow> world" where
  "dotted_row r cols w =
     w\<lparr>ws := (ws w)\<lparr>cells := (\<lambda>p.
        if fst p = r \<and> snd p \<in> set cols
        then Some ((get_cell (ws w) p)\<lparr>border_bottom := Some ''dotted''\<rparr>)
        else cells (ws w) p)\<rparr>\<rparr>"

text \<open>The number of sheets of an input file; a file that cannot be opened has none.\<close>

definition sheet_count :: "env \<Rightarrow> path \<Rightarrow> nat" where
  "sheet_count env f = (case excel_file env f of Inl e \<Rightarrow> 0 | Inr xls \<Rightarrow> length xls)"








text \<open>
  The world when the loop over the input files starts, the cursor and the world when the
  loop reaches the file at index \<open>k\<close>, and what the inner \<open>try\<close> statement does for that file.
\<close>

definition initial :: world where
  "initial = snd (setup_header new_workbook)"

definition state_before :: "env \<Rightarrow> path list \<Rightarrow> nat \<Rightarrow> int \<times> world" where
  "state_before env input_files k =
     process_files env (length input_files) 0 (take k input_files) 3 initial"


section \<open>Sample sheets and surroundings\<close>

text \<open>
  A frame given by its rows; a sheet of 15 rows and 7 columns with the two date cells
  \<open>b5\<close> and \<open>d5\<close> and a data row; a sheet with a title only; a sheet of 15 rows and 5
  columns; a sheet of 15 rows and 2 columns.
\<close>

definition frame_of :: "cell list list \<Rightarrow> dataframe" where
  "frame_of rows =
     \<lparr>nrows = length rows,
      ncols = (if rows = [] then 0 else length (hd rows)),
      grid = (\<lambda>i j. rows ! i ! j)\<rparr>"

definition rate_sheet :: "cell \<Rightarrow> cell \<Rightarrow> dataframe" where
  "rate_sheet b5 d5 =
     frame_of (replicate 4 (replicate 7 NaN) @ [[NaN, b5, NaN, d5, NaN, NaN, NaN]] @
               replicate 9 (replicate 7 NaN) @
               [[NaN, Text ''EUR'', Text ''Zona Euro'', Number 1.08, Number 1.09,
                 Number 39.4, Number 39.5]])"

definition title_sheet :: dataframe where
  "title_sheet = frame_of [[Text ''BANCO CENTRAL DE VENEZUELA'']]"

definition narrow_sheet :: dataframe where
  "narrow_sheet = frame_of (replicate 15 [NaN, Text ''EUR'', Text ''Zona Euro'', Number 1.08, Number 1.09])"


text \<open>
  Surroundings in which the listed files open as given, every other file is absent and
  saving succeeds; the same surroundings with a destination that cannot be written.
\<close>

definition env_of :: "(path \<times> (exn + xls)) list \<Rightarrow> env" where
  "env_of files =
     \<lparr>excel_file = (\<lambda>f. case map_of files f of None \<Rightarrow> Inl (Error ''No such file'') | Some r \<Rightarrow> r),
      save_error = (\<lambda>p. None)\<rparr>"


section \<open>Properties of the search\<close>

lemma match_here_Some:
  "match_here p s = Some m \<longleftrightarrow> (list_all2 atom_matches p (take (length p) s) \<and> m = take (length p) s)"
proof (induction p s arbitrary: m rule: match_here.induct)
  case (1 s)
  show ?case by auto
next
  case (2 a p)
  show ?case by simp
next
  case (3 a p c s)
  show ?case
  proof (cases "atom_matches a c")
    case True
    with 3 show ?thesis by (cases "match_here p s") auto
  next
    case False
    then show ?thesis by simp
  qed
qed

lemma length_date_regex: "length date_regex = 10"
  by (simp add: date_regex_def)

lemma match_here_date:
  "match_here date_regex s = Some m \<longleftrightarrow> (date_at s 0 \<and> m = substring s 0)"
  by (simp add: match_here_Some length_date_regex date_at_def date_shaped_def substring_def)

lemma match_here_date_None:
  "match_here date_regex s = None \<longleftrightarrow> \<not> date_at s 0"
  using match_here_date [of s] by (cases "match_here date_regex s") auto

lemma date_at_Cons: "date_at (c # s) (Suc i) = date_at s i"
  by (simp add: date_at_def substring_def)

lemma substring_Cons: "substring (c # s) (Suc i) = substring s i"
  by (simp add: substring_def)

lemma date_at_Nil: "\<not> date_at [] i"
  by (simp add: date_at_def substring_def date_shaped_def date_regex_def)

lemma re_search_None:
  "re_search date_regex s = None \<longleftrightarrow> (\<forall>i. \<not> date_at s i)"
proof (induction s)
  case Nil
  show ?case by (simp add: match_here_date_None date_at_Nil)
next
  case (Cons c s)
  show ?case
  proof (cases "match_here date_regex (c # s)")
    case None
    then have n0: "\<not> date_at (c # s) 0" by (simp add: match_here_date_None)
    have "(\<forall>i. \<not> date_at (c # s) i) \<longleftrightarrow> (\<forall>i. \<not> date_at s i)"
    proof
      assume a: "\<forall>i. \<not> date_at (c # s) i"
      show "\<forall>i. \<not> date_at s i"
      proof
        fix i
        from a have "\<not> date_at (c # s) (Suc i)" by blast
        then show "\<not> date_at s i" by (simp add: date_at_Cons)
      qed
    next
      assume a: "\<forall>i. \<not> date_at s i"
      show "\<forall>i. \<not> date_at (c # s) i"
      proof
        fix i
        show "\<not> date_at (c # s) i"
          using n0 a by (cases i) (simp_all add: date_at_Cons)
      qed
    qed
    with None Cons show ?thesis by simp
  next
    case (Some m)
    then have "date_at (c # s) 0" by (simp add: match_here_date)
    with Some show ?thesis by auto
  qed
qed

lemma re_search_leftmost:
  "date_at s i \<Longrightarrow> \<forall>k<i. \<not> date_at s k \<Longrightarrow> re_search date_regex s = Some (substring s i)"
proof (induction s arbitrary: i)
  case Nil
  then show ?case by (simp add: date_at_Nil)
next
  case (Cons c s)
  show ?case
  proof (cases i)
    case 0
    with Cons.prems have "match_here date_regex (c # s) = Some (substring (c # s) 0)"
      by (simp add: match_here_date)
    with 0 show ?thesis by simp
  next
    case (Suc j)
    with Cons.prems have n0: "match_here date_regex (c # s) = None"
      by (simp add: match_here_date_None)
    from Suc Cons.prems have dj: "date_at s j" by (simp add: date_at_Cons)
    have "\<forall>k<j. \<not> date_at s k"
    proof (intro allI impI)
      fix k assume "k < j"
      with Suc Cons.prems have "\<not> date_at (c # s) (Suc k)" by simp
      then show "\<not> date_at s k" by (simp add: date_at_Cons)
    qed
    with dj have "re_search date_regex s = Some (substring s j)" by (rule Cons.IH)
    with n0 Suc show ?thesis by (simp add: substring_Cons)
  qed
qed

lemma leftmost_exists:
  "date_at s i \<Longrightarrow> \<exists>j\<le>i. date_at s j \<and> (\<forall>k<j. \<not> date_at s k)"
proof (induction i rule: less_induct)
  case (less i)
  show ?case
  proof (cases "\<forall>k<i. \<not> date_at s k")
    case True
    with less.prems show ?thesis by blast
  next
    case False
    then obtain k where k: "k < i" "date_at s k" by blast
    from less.IH [OF k] obtain j where "j \<le> k" "date_at s j" "\<forall>k<j. \<not> date_at s k" by blast
    with k show ?thesis by (intro exI [of _ j]) simp
  qed
qed

section \<open>\<open>process_sheet\<close> case by case\<close>

lemma date_cell_eq:
  "date_cell df i j =
     (if i < nrows df \<and> j < ncols df then Inr (date_or_na (grid df i j)) else Inl IndexError)"
  by (simp add: date_cell_def iloc_def bind_def date_or_na_def)

lemma row_data_eq:
  "row_data df b d =
     (if 14 < nrows df \<and> 6 < ncols df
      then Inr [None, Some (grid df 14 1), Some (grid df 14 2), Some (grid df 14 3),
                Some (grid df 14 4), Some (grid df 14 5), Some (grid df 14 6), Some b, Some d]
      else Inl IndexError)"
  by (simp add: row_data_def iloc_def bind_def)

lemma ws_cell_ok:
  "1 \<le> r \<Longrightarrow> 1 \<le> c \<Longrightarrow>
   ws_cell r c v w =
     (Inr (), w\<lparr>ws := (ws w)\<lparr>cells := (cells (ws w))((r, c) \<mapsto> assign v (get_cell (ws w) (r, c)))\<rparr>\<rparr>)"
  by (simp add: ws_cell_def)

lemma ws_cell_bad: "r < 1 \<or> c < 1 \<Longrightarrow> ws_cell r c v w = (Inl ValueError, w)"
  by (simp add: ws_cell_def)

lemma store_row_Nil: "store_row r k [] w = w"
proof -
  have "(\<lambda>p. if fst p = r \<and> k \<le> snd p \<and> snd p < k + int (length ([] :: cell option list))
             then Some (assign (([] :: cell option list) ! nat (snd p - k)) (get_cell (ws w) p))
             else cells (ws w) p) = cells (ws w)"
    by (rule ext) auto
  then show ?thesis by (simp add: store_row_def)
qed

lemma write_cells_ok:
  "1 \<le> r \<Longrightarrow> 1 \<le> k \<Longrightarrow>
   write_cells r (enumerate_from k row) w = (Inr (), store_row r k row w)"
proof (induction row arbitrary: k w)
  case Nil
  show ?case by (simp add: store_row_Nil)
next
  case (Cons v row)
  let ?w1 = "w\<lparr>ws := (ws w)\<lparr>cells := (cells (ws w))((r, k) \<mapsto> assign v (get_cell (ws w) (r, k)))\<rparr>\<rparr>"
  have step: "ws_cell r k v w = (Inr (), ?w1)"
    using Cons.prems by (rule ws_cell_ok)
  have ih: "write_cells r (enumerate_from (k + 1) row) ?w1 = (Inr (), store_row r (k + 1) row ?w1)"
    using Cons.prems by (intro Cons.IH) simp_all
  have "store_row r (k + 1) row ?w1 = store_row r k (v # row) w"
  proof -
    have "(\<lambda>p. if fst p = r \<and> k + 1 \<le> snd p \<and> snd p < k + 1 + int (length row)
              then Some (assign (row ! nat (snd p - (k + 1))) (get_cell (ws ?w1) p))
              else cells (ws ?w1) p) =
          (\<lambda>p. if fst p = r \<and> k \<le> snd p \<and> snd p < k + int (length (v # row))
              then Some (assign ((v # row) ! nat (snd p - k)) (get_cell (ws w) p))
              else cells (ws w) p)"
    proof
      fix p :: "int \<times> int"
      obtain a b where p: "p = (a, b)" by (cases p)
      show "(if fst p = r \<and> k + 1 \<le> snd p \<and> snd p < k + 1 + int (length row)
              then Some (assign (row ! nat (snd p - (k + 1))) (get_cell (ws ?w1) p))
              else cells (ws ?w1) p) =
            (if fst p = r \<and> k \<le> snd p \<and> snd p < k + int (length (v # row))
              then Some (assign ((v # row) ! nat (snd p - k)) (get_cell (ws w) p))
              else cells (ws w) p)"
      proof (cases "a = r \<and> k + 1 \<le> b \<and> b < k + 1 + int (length row)")
        case True
        then have "nat (b - k) = Suc (nat (b - (k + 1)))" by linarith
        with True p show ?thesis by (simp add: get_cell_def)
      next
        case False
        with p show ?thesis by (auto simp: get_cell_def)
      qed
    qed
    then show ?thesis by (simp add: store_row_def)
  qed
  with step ih show ?case by simp
qed

lemma write_cells_bad:
  "r < 1 \<Longrightarrow> row \<noteq> [] \<Longrightarrow> write_cells r (enumerate_from k row) w = (Inl ValueError, w)"
  by (cases row) (simp_all add: ws_cell_bad)

lemma process_sheet_raises:
  "\<not> (4 < nrows df \<and> 3 < ncols df) \<Longrightarrow> process_sheet df cur name w = (Inl IndexError, w)"
  by (auto simp: process_sheet_def date_cell_eq)

lemma process_sheet_skips:
  "4 < nrows df \<Longrightarrow> 3 < ncols df \<Longrightarrow> \<not> (14 < nrows df \<and> 6 < ncols df) \<Longrightarrow>
   process_sheet df cur name w = (Inr cur, print (RowNotFound name) w)"
  by (auto simp: process_sheet_def date_cell_eq try_row_def row_data_eq)

lemma process_sheet_bad_row:
  "14 < nrows df \<Longrightarrow> 6 < ncols df \<Longrightarrow> cur < 1 \<Longrightarrow>
   process_sheet df cur name w = (Inl ValueError, w)"
  by (simp add: process_sheet_def date_cell_eq try_row_def row_data_eq ws_cell_bad)

lemma process_sheet_writes:
  "14 < nrows df \<Longrightarrow> 6 < ncols df \<Longrightarrow> 1 \<le> cur \<Longrightarrow>
   process_sheet df cur name w = (Inr (cur + 1), store_row cur 1 (projected df) w)"
proof -
  assume a: "14 < nrows df" "6 < ncols df" "1 \<le> cur"
  have rd: "row_data df (extract_date (date_or_na (grid df 4 1))) (extract_date (date_or_na (grid df 4 3)))
            = Inr (projected df)"
    using a by (simp add: row_data_eq projected_def)
  have wr: "write_cells cur (enumerate_from 1 (projected df)) w = (Inr (), store_row cur 1 (projected df) w)"
    using a by (intro write_cells_ok) simp_all
  show ?thesis
    using a rd wr by (simp add: process_sheet_def date_cell_eq try_row_def)
qed

section \<open>The cursor and the rows above it\<close>

lemma kept_below_refl: "kept_below cur w w"
  by (simp add: kept_below_def)

lemma kept_below_trans:
  assumes "kept_below cur w w'" "kept_below cur' w' w''" "cur \<le> cur'"
  shows "kept_below cur w w''"
  unfolding kept_below_def
proof (intro allI impI)
  fix r c assume r: "r < cur"
  then have r': "r < cur'" using assms(3) by simp
  from assms(1) r have a:
    "cells (ws w) (r, c) \<noteq> None \<longrightarrow> cells (ws w') (r, c) \<noteq> None"
    "get_cell (ws w') (r, c) = get_cell (ws w) (r, c) \<or>
     get_cell (ws w') (r, c) = (get_cell (ws w) (r, c))\<lparr>border_bottom := Some ''dotted''\<rparr>"
    by (simp_all add: kept_below_def)
  from assms(2) r' have b:
    "cells (ws w') (r, c) \<noteq> None \<longrightarrow> cells (ws w'') (r, c) \<noteq> None"
    "get_cell (ws w'') (r, c) = get_cell (ws w') (r, c) \<or>
     get_cell (ws w'') (r, c) = (get_cell (ws w') (r, c))\<lparr>border_bottom := Some ''dotted''\<rparr>"
    by (simp_all add: kept_below_def)
  from a(1) b(1) have 1: "cells (ws w) (r, c) \<noteq> None \<longrightarrow> cells (ws w'') (r, c) \<noteq> None"
    by blast
  from a(2) b(2) have 2:
    "get_cell (ws w'') (r, c) = get_cell (ws w) (r, c) \<or>
     get_cell (ws w'') (r, c) = (get_cell (ws w) (r, c))\<lparr>border_bottom := Some ''dotted''\<rparr>"
    by auto
  from 1 2 show "(cells (ws w) (r, c) \<noteq> None \<longrightarrow> cells (ws w'') (r, c) \<noteq> None) \<and>
        (get_cell (ws w'') (r, c) = get_cell (ws w) (r, c) \<or>
         get_cell (ws w'') (r, c) = (get_cell (ws w) (r, c))\<lparr>border_bottom := Some ''dotted''\<rparr>)"
    by blast
qed

lemma advances_refl: "advances cur w cur w"
  by (simp add: advances_def kept_below_refl)

lemma advances_trans:
  "advances cur w cur' w' \<Longrightarrow> advances cur' w' cur'' w'' \<Longrightarrow> advances cur w cur'' w''"
  unfolding advances_def using kept_below_trans by fastforce

lemma advances_print: "advances cur w cur (print m w)"
  by (simp add: advances_def kept_below_def print_def no_rows_from_def)

lemma advances_store_row: "advances cur w (cur + 1) (store_row cur 1 row w)"
  by (simp add: advances_def kept_below_def store_row_def no_rows_from_def get_cell_def)

lemma process_sheet_cases:
  obtains
    (raises) "process_sheet df cur name w = (Inl IndexError, w)"
  | (skips) "process_sheet df cur name w = (Inr cur, print (RowNotFound name) w)"
  | (bad_row) "process_sheet df cur name w = (Inl ValueError, w)"
  | (writes) "14 < nrows df" "6 < ncols df" "1 \<le> cur"
      "process_sheet df cur name w = (Inr (cur + 1), store_row cur 1 (projected df) w)"
proof (cases "4 < nrows df \<and> 3 < ncols df")
  case False
  then show ?thesis using raises process_sheet_raises by blast
next
  case d: True
  show ?thesis
  proof (cases "14 < nrows df \<and> 6 < ncols df")
    case False
    with d show ?thesis using skips process_sheet_skips by blast
  next
    case True
    show ?thesis
    proof (cases "1 \<le> cur")
      case True
      with \<open>14 < nrows df \<and> 6 < ncols df\<close> show ?thesis using writes process_sheet_writes by blast
    next
      case False
      with \<open>14 < nrows df \<and> 6 < ncols df\<close> show ?thesis
        using bad_row process_sheet_bad_row [of df cur name w] by simp
    qed
  qed
qed

lemma process_sheet_raise_cursor:
  "process_sheet df cur name w = (Inl e, w') \<Longrightarrow> advances cur w cur w'"
  by (cases df cur name w rule: process_sheet_cases) (auto simp: advances_refl)

lemma process_sheet_return_cursor:
  "process_sheet df cur name w = (Inr cur', w') \<Longrightarrow>
   (cur' = cur \<or> cur' = cur + 1) \<and> advances cur w cur' w'"
  by (cases df cur name w rule: process_sheet_cases)
     (auto simp: advances_refl advances_print advances_store_row)

lemma process_sheets_advances:
  "process_sheets xls cur w = (r, cur', w') \<Longrightarrow>
   advances cur w cur' w' \<and> cur' \<le> cur + int (length xls)"
proof (induction xls arbitrary: cur w)
  case Nil
  then show ?case by (simp add: advances_refl)
next
  case (Cons sh rest)
  obtain name rd where sh: "sh = (name, rd)" by (cases sh)
  show ?case
  proof (cases rd)
    case (Inl e)
    with Cons.prems sh show ?thesis by (simp add: advances_refl)
  next
    case (Inr df)
    obtain res w1 where ps: "process_sheet df cur name w = (res, w1)"
      by (cases "process_sheet df cur name w")
    show ?thesis
    proof (cases res)
      case (Inl e)
      with Cons.prems sh Inr ps have "cur' = cur" "w' = w1" by simp_all
      with ps Inl show ?thesis using process_sheet_raise_cursor by auto
    next
      case r: (Inr c1)
      with ps have st: "(c1 = cur \<or> c1 = cur + 1) \<and> advances cur w c1 w1"
        using process_sheet_return_cursor by blast
      from Cons.prems sh Inr ps r have "process_sheets rest c1 w1 = (r, cur', w')" by simp
      then have "advances c1 w1 cur' w' \<and> cur' \<le> c1 + int (length rest)" by (rule Cons.IH)
      with st show ?thesis using advances_trans by fastforce
    qed
  qed
qed

lemma dotted_row_Nil: "dotted_row r [] w = w"
  by (simp add: dotted_row_def)

lemma apply_border_ok:
  "1 \<le> r \<Longrightarrow> \<forall>c\<in>set cols. 1 \<le> c \<Longrightarrow> apply_border r cols w = (Inr (), dotted_row r cols w)"
proof (induction cols arbitrary: w)
  case Nil
  show ?case by (simp add: dotted_row_Nil)
next
  case (Cons c cols)
  let ?w1 = "w\<lparr>ws := (ws w)\<lparr>cells := (cells (ws w))((r, c) \<mapsto> assign None (get_cell (ws w) (r, c)))\<rparr>\<rparr>"
  let ?w2 = "modify_cell (r, c) (\<lambda>c. c\<lparr>border_bottom := Some ''dotted''\<rparr>) ?w1"
  have step: "ws_cell r c None w = (Inr (), ?w1)"
    using Cons.prems by (intro ws_cell_ok) simp_all
  have ih: "apply_border r cols ?w2 = (Inr (), dotted_row r cols ?w2)"
    using Cons.prems by (intro Cons.IH) simp_all
  let ?f1 = "\<lambda>p. if fst p = r \<and> snd p \<in> set cols
              then Some ((get_cell (ws ?w2) p)\<lparr>border_bottom := Some ''dotted''\<rparr>)
              else cells (ws ?w2) p"
  let ?f2 = "\<lambda>p. if fst p = r \<and> snd p \<in> set (c # cols)
              then Some ((get_cell (ws w) p)\<lparr>border_bottom := Some ''dotted''\<rparr>)
              else cells (ws w) p"
  have feq: "?f1 = ?f2"
    by (rule ext) (auto simp: modify_cell_def get_cell_def assign_def)
  have e1: "dotted_row r cols ?w2 = w\<lparr>ws := (ws w)\<lparr>cells := ?f1\<rparr>\<rparr>"
    by (simp add: dotted_row_def modify_cell_def cong: if_cong)
  have e2: "dotted_row r (c # cols) w = w\<lparr>ws := (ws w)\<lparr>cells := ?f2\<rparr>\<rparr>"
    by (simp add: dotted_row_def)
  have "dotted_row r cols ?w2 = dotted_row r (c # cols) w"
    by (simp only: e1 e2 feq)
  with step ih show ?case by simp
qed

lemma apply_border_bad:
  "r < 1 \<Longrightarrow> cols \<noteq> [] \<Longrightarrow> apply_border r cols w = (Inl ValueError, w)"
  by (cases cols) (simp_all add: ws_cell_bad)


lemma advances_dotted_row: "advances cur w cur (dotted_row (cur - 1) cols w)"
  by (simp add: advances_def kept_below_def dotted_row_def no_rows_from_def get_cell_def)

lemma apply_border_advances:
  assumes "apply_border (cur - 1) cols w = (res, w')" "\<forall>c\<in>set cols. 1 \<le> c"
  shows "advances cur w cur w'"
proof (cases "1 \<le> cur - 1")
  case True
  with assms show ?thesis using apply_border_ok [of "cur - 1" cols w]
    by (auto simp: advances_dotted_row)
next
  case False
  show ?thesis
  proof (cases cols)
    case Nil
    with assms show ?thesis by (simp add: advances_refl)
  next
    case (Cons c cs)
    with False assms show ?thesis using apply_border_bad [of "cur - 1" cols w]
      by (simp add: advances_refl)
  qed
qed

lemma set_upto_1_9: "\<forall>c\<in>set [1..9::int]. 1 \<le> c"
  by simp

lemma try_file_advances:
  assumes "try_file env n idx f cur w = (res, cur', w')"
  shows "advances cur w cur' w' \<and> cur' \<le> cur + int (sheet_count env f)"
proof (cases "excel_file env f")
  case (Inl e)
  with assms show ?thesis by (simp add: try_file_def advances_refl)
next
  case (Inr xls)
  obtain r1 c1 w1 where ps: "process_sheets xls cur w = (r1, c1, w1)"
    by (cases "process_sheets xls cur w")
  then have adv: "advances cur w c1 w1" and le: "c1 \<le> cur + int (length xls)"
    using process_sheets_advances by blast+
  have sc: "sheet_count env f = length xls" using Inr by (simp add: sheet_count_def)
  show ?thesis
  proof (cases r1)
    case e: (Inl e)
    with assms Inr ps have "cur' = c1" "w' = w1" by (simp_all add: try_file_def)
    with adv le sc show ?thesis by simp
  next
    case ok: (Inr u)
    show ?thesis
    proof (cases "int idx < int n - 1")
      case True
      obtain r2 w2 where ab: "apply_border (c1 - 1) [1..9] w1 = (r2, w2)"
        by (cases "apply_border (c1 - 1) [1..9] w1")
      then have "advances c1 w1 c1 w2" using apply_border_advances set_upto_1_9 by blast
      with adv have "advances cur w c1 w2" by (rule advances_trans)
      moreover from assms Inr ps ok True ab have "cur' = c1" "w' = w2"
        by (simp_all add: try_file_def)
      ultimately show ?thesis using le sc by simp
    next
      case False
      with assms Inr ps ok have "cur' = c1" "w' = w1" by (simp_all add: try_file_def)
      with adv le sc show ?thesis by simp
    qed
  qed
qed

lemma process_files_advances:
  "process_files env n idx fs cur w = (cur', w') \<Longrightarrow>
   advances cur w cur' w' \<and> cur' \<le> cur + int (sum_list (map (sheet_count env) fs))"
proof (induction fs arbitrary: idx cur w)
  case Nil
  then show ?case by (simp add: advances_refl)
next
  case (Cons f fs)
  let ?w0 = "print (ProcessingFile (path_name f)) w"
  obtain r1 c1 w1 where tf: "try_file env n idx f cur ?w0 = (r1, c1, w1)"
    by (cases "try_file env n idx f cur ?w0")
  then have t: "advances cur ?w0 c1 w1" "c1 \<le> cur + int (sheet_count env f)"
    using try_file_advances by blast+
  have a1: "advances cur w c1 w1"
    using advances_print t(1) by (rule advances_trans)
  show ?case
  proof (cases r1)
    case (Inl e)
    let ?w2 = "print (ErrorProcessing (path_name f) e) w1"
    from Cons.prems tf Inl have "process_files env n (idx + 1) fs c1 ?w2 = (cur', w')" by simp
    then have ih: "advances c1 ?w2 cur' w'" "cur' \<le> c1 + int (sum_list (map (sheet_count env) fs))"
      using Cons.IH by blast+
    have "advances c1 w1 cur' w'" using advances_print ih(1) by (rule advances_trans)
    with a1 have "advances cur w cur' w'" by (rule advances_trans)
    with ih(2) t(2) show ?thesis by simp
  next
    case (Inr u)
    from Cons.prems tf Inr have "process_files env n (idx + 1) fs c1 w1 = (cur', w')" by simp
    then have ih: "advances c1 w1 cur' w'" "cur' \<le> c1 + int (sum_list (map (sheet_count env) fs))"
      using Cons.IH by blast+
    from a1 ih(1) have "advances cur w cur' w'" by (rule advances_trans)
    with ih(2) t(2) show ?thesis by simp
  qed
qed

lemma process_files_append:
  "process_files env n idx (xs @ ys) cur w =
     (case process_files env n idx xs cur w of
        (c, w') \<Rightarrow> process_files env n (idx + length xs) ys c w')"
proof (induction xs arbitrary: idx cur w)
  case Nil
  show ?case by simp
next
  case (Cons f xs)
  show ?case
    by (simp add: Cons.IH split: prod.splits sum.splits)
qed

section \<open>The rows written for readable workbooks\<close>









section \<open>The header and the states of the run\<close>

lemma fst_setup_header: "fst (setup_header new_workbook) = Inr ()"
  by (simp add: setup_header_def merge_cells_def modify_cell_def set_title_def new_workbook_def
        ws_cell_def assign_def headers_def Let_def get_cell_def)

lemma setup_header_initial: "setup_header new_workbook = (Inr (), initial)"
  using fst_setup_header by (simp add: initial_def prod_eq_iff)

lemma initial_stdout: "stdout initial = []"
  by (simp add: initial_def setup_header_def merge_cells_def modify_cell_def set_title_def
        new_workbook_def ws_cell_def headers_def Let_def get_cell_def set_width_def)







lemma state_before_later:
  assumes "k \<le> j" "j \<le> length fs"
  shows "state_before env fs j =
     (case state_before env fs k of
        (c, w) \<Rightarrow> process_files env (length fs) k (take (j - k) (drop k fs)) c w)"
proof -
  have "take j fs = take k fs @ take (j - k) (drop k fs)"
    using assms take_add [of k "j - k" fs] by simp
  moreover have "min (length fs) k = k" using assms by simp
  ultimately show ?thesis
    by (simp add: state_before_def process_files_append split: prod.splits)
qed

lemma state_advances:
  assumes "k \<le> j" "j \<le> length fs"
  shows "advances (fst (state_before env fs k)) (snd (state_before env fs k))
           (fst (state_before env fs j)) (snd (state_before env fs j))"
proof -
  obtain c w where s: "state_before env fs k = (c, w)" by (cases "state_before env fs k")
  obtain c' w' where s': "state_before env fs j = (c', w')" by (cases "state_before env fs j")
  from state_before_later [OF assms, of env] s s'
  have "process_files env (length fs) k (take (j - k) (drop k fs)) c w = (c', w')" by simp
  then have "advances c w c' w'" using process_files_advances by blast
  with s s' show ?thesis by simp
qed

lemma merge_body_run:
  "merge_body env fs out =
     (case state_before env fs (length fs) of
        (cur, w) \<Rightarrow>
          (case save_error env out of
             Some e \<Rightarrow> (Inl e, w)
           | None \<Rightarrow>
               (Inr (),
                print (TotalRows (cur - 3))
                  (print (FilesProcessed (length fs))
                     (print (Created out) (w\<lparr>saved := Some (out, ws w)\<rparr>))))))"
  by (simp add: merge_body_def setup_header_initial state_before_def save_def
        split: prod.splits option.splits)

lemma merge_ws:
  "ws (snd (merge_excel_files env fs out)) = ws (snd (state_before env fs (length fs)))"
  by (simp add: merge_excel_files_def merge_body_run print_def split: prod.splits option.splits)

lemma merge_stdout:
  "stdout (snd (merge_excel_files env fs out)) =
     stdout (snd (state_before env fs (length fs))) @
     (case save_error env out of
        Some e \<Rightarrow> [FatalError e]
      | None \<Rightarrow> [Created out, FilesProcessed (length fs),
                 TotalRows (fst (state_before env fs (length fs)) - 3)])"
  by (simp add: merge_excel_files_def merge_body_run print_def split: prod.splits option.splits)

section \<open>Evaluating runs\<close>

lemma stdout_print: "stdout (print m w) = stdout w @ [m]"
  by (simp add: print_def)

lemma stdout_store_row: "stdout (store_row r k row w) = stdout w"
  by (simp add: store_row_def)

lemma stdout_dotted_row: "stdout (dotted_row r cols w) = stdout w"
  by (simp add: dotted_row_def)

lemma apply_border_1_9: "1 \<le> r \<Longrightarrow> apply_border r [1..9] w = (Inr (), dotted_row r [1..9] w)"
  by (rule apply_border_ok) simp_all

lemma rate_sheet_shape: "nrows (rate_sheet b5 d5) = 15" "ncols (rate_sheet b5 d5) = 7"
  by (simp_all add: rate_sheet_def frame_of_def)



lemma title_sheet_shape: "nrows title_sheet = 1" "ncols title_sheet = 1"
  by (simp_all add: title_sheet_def frame_of_def)

lemma narrow_sheet_shape: "nrows narrow_sheet = 15" "ncols narrow_sheet = 5"
  by (simp_all add: narrow_sheet_def frame_of_def)


lemma process_title_sheet: "process_sheet title_sheet cur name w = (Inl IndexError, w)"
  by (rule process_sheet_raises) (simp add: title_sheet_shape)


lemma process_narrow_sheet:
  "process_sheet narrow_sheet cur name w = (Inr cur, print (RowNotFound name) w)"
  by (rule process_sheet_skips) (simp_all add: narrow_sheet_shape)

lemma process_rate_sheet:
  "1 \<le> cur \<Longrightarrow>
   process_sheet (rate_sheet b5 d5) cur name w =
     (Inr (cur + 1), store_row cur 1 (projected (rate_sheet b5 d5)) w)"
  by (rule process_sheet_writes) (simp_all add: rate_sheet_shape)

lemmas run_simps =
  state_before_def try_file_def env_of_def process_rate_sheet
  apply_border_1_9 merge_stdout merge_ws
  stdout_print stdout_store_row stdout_dotted_row initial_stdout

lemma date_at_length: "date_at s i \<Longrightarrow> i + 10 \<le> length s"
proof -
  assume "date_at s i"
  then have "length date_regex = length (substring s i)"
    unfolding date_at_def date_shaped_def by (rule list_all2_lengthD)
  then show ?thesis by (simp add: length_date_regex substring_def)
qed





lemma value_at_merge:
  "value_at (snd (merge_excel_files env fs out)) p =
   value_at (snd (state_before env fs (length fs))) p"
  by (simp add: value_at_def merge_ws)



section \<open>The claims\<close>

text \<open>
  Claim C1. For every source sheet with fewer than 15 rows, \<open>process_sheet\<close> writes no cell,
  returns the input cursor unchanged and emits a diagnostic naming the sheet, also for a
  sheet with fewer than 5 rows.

  The code does not do so for a sheet with fewer than 5 rows. On a sheet that holds only a
  title cell, the read of cell (4, 1), which comes before the \<open>try\<close> statement, raises
  \<open>IndexError\<close>: \<open>process_sheet\<close> returns no cursor and prints nothing. In a run, the
  exception reaches the handler of the file, and the sheets that follow in the same
  workbook are not processed: the second sheet below has a data row, and no row is written.
\<close>

theorem short_sheet_raises:
  "process_sheet title_sheet 3 ''Hoja1'' initial = (Inl IndexError, initial) \<and>
   stdout (snd (merge_excel_files
      (env_of [(Path [] [''a.xls''],
                Inr [(''Hoja1'', Inr title_sheet),
                     (''Hoja2'', Inr (rate_sheet (Text ''Fecha Operacion: 01/01/2024'')
                                                 (Text ''Fecha Valor: 02/01/2024'')))])])
      [Path [] [''a.xls'']] ''out.xlsx'')) =
     [ProcessingFile ''a.xls'', ErrorProcessing ''a.xls'' IndexError,
      Created ''out.xlsx'', FilesProcessed 1, TotalRows 0]"
  by (simp add: run_simps process_title_sheet)




text \<open>
  Claim C3. For a text \<open>s\<close> in which a substring of the shape \<open>\d\d/\d\d/\d\d\d\d\<close> starts at
  some position \<open>i\<close>, \<open>extract_date\<close> returns a substring of \<open>s\<close> of that shape, whatever
  surrounds it (the one at \<open>i\<close>, unless another starts before \<open>i\<close>); for a text without
  such a substring and for a value that is not a text, it returns its argument. It is a
  total function: there is no exception.
\<close>

theorem extract_date_contract:
  "(date_at s i \<longrightarrow> (\<exists>j\<le>i. date_at s j \<and> extract_date (Text s) = Text (substring s j))) \<and>
   ((\<forall>i. \<not> date_at s i) \<longrightarrow> extract_date (Text s) = Text s) \<and>
   ((\<forall>t. v \<noteq> Text t) \<longrightarrow> extract_date v = v)"
proof (intro conjI impI)
  assume "date_at s i"
  then obtain j where j: "j \<le> i" "date_at s j" "\<forall>k<j. \<not> date_at s k"
    using leftmost_exists by blast
  then have "re_search date_regex s = Some (substring s j)" by (simp add: re_search_leftmost)
  then have "extract_date (Text s) = Text (substring s j)" by (simp add: extract_date_def)
  with j show "\<exists>j\<le>i. date_at s j \<and> extract_date (Text s) = Text (substring s j)" by blast
next
  assume "\<forall>i. \<not> date_at s i"
  then have "re_search date_regex s = None" by (simp add: re_search_None)
  then show "extract_date (Text s) = Text s" by (simp add: extract_date_def)
next
  assume "\<forall>t. v \<noteq> Text t"
  then show "extract_date v = v" by (cases v) (simp_all add: extract_date_def)
qed

text \<open>A label with a date, the placeholder and a number.\<close>

theorem extract_date_contract_witness:
  "date_at ''Fecha Operacion: 27/03/2024'' 17 \<and>
   (\<exists>j\<le>17. date_at ''Fecha Operacion: 27/03/2024'' j \<and>
      extract_date (Text ''Fecha Operacion: 27/03/2024'') =
        Text (substring ''Fecha Operacion: 27/03/2024'' j)) \<and>
   extract_date (Text ''N/A'') = Text ''N/A'' \<and>
   extract_date (Number 36.5) = Number 36.5"
proof -
  have h1: "date_at ''Fecha Operacion: 27/03/2024'' 17"
    by (simp add: date_at_def substring_def date_shaped_def date_regex_def)
  have h2: "\<forall>i. \<not> date_at ''N/A'' i"
    using date_at_length [of "''N/A''"] by fastforce
  have h3: "\<forall>t. Number 36.5 \<noteq> Text t" by simp
  from h1 h2 h3 show ?thesis
    using extract_date_contract [of "''Fecha Operacion: 27/03/2024''" 17 "Number 36.5"]
      extract_date_contract [of "''N/A''" 0 "Number 36.5"]
    by blast
qed














text \<open>
  Claim C9. The cursor never decreases. When \<open>process_sheet\<close> returns, it returns its
  cursor or its cursor plus one; the loop over the sheets of a workbook, which assigns to
  the cursor nothing but what \<open>process_sheet\<close> returns, ends with a cursor between its
  initial cursor and that plus the number of sheets; so does the loop over the files, with
  the number of sheets of all the files; and along a run the cursor at a later file is at
  least the cursor at an earlier one.
\<close>

theorem cursor_monotone:
  "(fst (process_sheet df cur sheet_name w) = Inr cur' \<longrightarrow> cur' = cur \<or> cur' = cur + 1) \<and>
   cur \<le> fst (snd (process_sheets xls cur w)) \<and>
   fst (snd (process_sheets xls cur w)) \<le> cur + int (length xls) \<and>
   cur \<le> fst (process_files env n idx fs cur w) \<and>
   fst (process_files env n idx fs cur w) \<le> cur + int (sum_list (map (sheet_count env) fs)) \<and>
   (k \<le> j \<and> j \<le> length input_files \<longrightarrow>
      fst (state_before env input_files k) \<le> fst (state_before env input_files j))"
proof (intro conjI impI)
  assume "fst (process_sheet df cur sheet_name w) = Inr cur'"
  then have "process_sheet df cur sheet_name w = (Inr cur', snd (process_sheet df cur sheet_name w))"
    by (simp add: prod_eq_iff)
  then show "cur' = cur \<or> cur' = cur + 1" using process_sheet_return_cursor by blast
next
  obtain r c w' where ps: "process_sheets xls cur w = (r, c, w')"
    by (cases "process_sheets xls cur w")
  then have "advances cur w c w' \<and> c \<le> cur + int (length xls)"
    by (rule process_sheets_advances)
  with ps show "cur \<le> fst (snd (process_sheets xls cur w))"
    and "fst (snd (process_sheets xls cur w)) \<le> cur + int (length xls)"
    by (simp_all add: advances_def)
next
  obtain c w' where pf: "process_files env n idx fs cur w = (c, w')"
    by (cases "process_files env n idx fs cur w")
  then have "advances cur w c w' \<and> c \<le> cur + int (sum_list (map (sheet_count env) fs))"
    by (rule process_files_advances)
  with pf show "cur \<le> fst (process_files env n idx fs cur w)"
    and "fst (process_files env n idx fs cur w) \<le> cur + int (sum_list (map (sheet_count env) fs))"
    by (simp_all add: advances_def)
next
  assume "k \<le> j \<and> j \<le> length input_files"
  then have "advances (fst (state_before env input_files k)) (snd (state_before env input_files k))
           (fst (state_before env input_files j)) (snd (state_before env input_files j))"
    by (intro state_advances) simp_all
  then show "fst (state_before env input_files k) \<le> fst (state_before env input_files j)"
    by (simp add: advances_def)
qed

text \<open>A sheet with a data row, a sheet without, and a run over one absent file.\<close>

theorem cursor_monotone_witness:
  "fst (process_sheet (rate_sheet NaN NaN) 3 ''Hoja1'' initial) = Inr 4 \<and>
   fst (process_sheet narrow_sheet 3 ''Hoja1'' initial) = Inr 3 \<and>
   fst (state_before (env_of []) [Path [] [''a.xls'']] 0) \<le>
   fst (state_before (env_of []) [Path [] [''a.xls'']] 1)"
proof -
  have h1: "fst (process_sheet (rate_sheet NaN NaN) 3 ''Hoja1'' initial) = Inr 4"
    by (simp add: process_rate_sheet)
  have h2: "fst (process_sheet narrow_sheet 3 ''Hoja1'' initial) = Inr 3"
    by (simp add: process_narrow_sheet)
  have h3: "(0::nat) \<le> 1 \<and> 1 \<le> length [Path [] [''a.xls'']]" by simp
  from h1 h2 h3 show ?thesis
    using cursor_monotone [of "rate_sheet NaN NaN" 3 "''Hoja1''" initial 4 "[]" "env_of []" 0 0 "[]"
        0 1 "[Path [] [''a.xls'']]"]
    by blast
qed

text \<open>
  Claim C10. For a text with more than one substring of the shape \<open>\d\d/\d\d/\d\d\d\d\<close>,
  one at position \<open>i\<close>, another at a later position \<open>j\<close> and none before \<open>i\<close>,
  \<open>extract_date\<close> returns the leftmost one, the substring at \<open>i\<close>.
\<close>

theorem extract_date_leftmost:
  "date_at s i \<Longrightarrow> date_at s j \<Longrightarrow> i < j \<Longrightarrow> \<forall>k<i. \<not> date_at s k \<Longrightarrow>
   extract_date (Text s) = Text (substring s i)"
  by (simp add: extract_date_def re_search_leftmost)

text \<open>A text with two dates, the first of which starts at position 4.\<close>

theorem extract_date_leftmost_witness:
  "date_at ''Del 27/03/2024 al 28/03/2024'' 4 \<and> date_at ''Del 27/03/2024 al 28/03/2024'' 18 \<and>
   extract_date (Text ''Del 27/03/2024 al 28/03/2024'') = Text ''27/03/2024''"
proof -
  let ?s = "''Del 27/03/2024 al 28/03/2024''"
  have h1: "date_at ?s 4" and h2: "date_at ?s 18"
    by (simp_all add: date_at_def substring_def date_shaped_def date_regex_def)
  have h3: "\<forall>k<4. \<not> date_at ?s k"
  proof (intro allI impI)
    fix k :: nat assume "k < 4"
    then consider "k = 0" | "k = 1" | "k = 2" | "k = 3" by linarith
    then show "\<not> date_at ?s k"
      by cases (simp_all add: date_at_def substring_def date_shaped_def date_regex_def)
  qed
  have "extract_date (Text ?s) = Text (substring ?s 4)"
    using extract_date_leftmost [OF h1 h2 _ h3] by simp
  then have "extract_date (Text ?s) = Text ''27/03/2024''" by (simp add: substring_def)
  with h1 h2 show ?thesis by simp
qed

end
